theory Spec2Isabelle
  imports
    Complex_Main
    "HOL-Library.Word"
    "HOL-Library.List_Lexorder"
    "HOL-Library.Product_Lexorder"
    "HOL-Library.AList"
    "HOL-Library.Multiset"
    "HOL-Library.Sublist"
begin

section \<open>JavaScript values of the library (src/types.ts)\<close>

text \<open>
  A JavaScript string is a sequence of 16-bit code units; the relational operators and the
  default order of \<^verbatim>\<open>Array.prototype.sort\<close> compare strings code unit by code
  unit, which is the lexicographic order of \<^typ>\<open>16 word list\<close>. \<open>str\<close> writes a
  literal.
\<close>

type_synonym jsstring = "16 word list"

definition str :: "string \<Rightarrow> jsstring" where
  "str s = map (\<lambda>c. of_nat (of_char c)) s"

text \<open>
  A Number is NaN, an infinity, the negative zero, or a finite value given by the rational
  it denotes (\<open>Finite 0\<close> is the positive zero). Not every rational is a double; the
  theorems below hold whatever rationals occur.
\<close>

datatype number = NaN | PosInfinity | NegInfinity | NegZero | Finite rat

datatype JsonPrimitive = JString jsstring | JNumber number | JBoolean bool | JNull

text \<open>
  \<^verbatim>\<open>JsonLikeValue\<close>: a primitive, \<^verbatim>\<open>undefined\<close>, an array (a hole reads as
  \<^verbatim>\<open>undefined\<close>) or an object, given by its own enumerable string-keyed properties
  in the order \<^verbatim>\<open>Object.keys\<close> lists them. \<^verbatim>\<open>JsonValue\<close> is the subset without
  \<^verbatim>\<open>undefined\<close>; TypeScript erases the difference at run time, so it is a predicate.
\<close>

datatype JsonLikeValue =
    Undefined
  | Primitive JsonPrimitive
  | Array "JsonLikeValue list"
  | Object "(jsstring \<times> JsonLikeValue) list"

fun JsonValue :: "JsonLikeValue \<Rightarrow> bool" where
  "JsonValue Undefined = False"
| "JsonValue (Primitive p) = True"
| "JsonValue (Array elements) = list_all JsonValue elements"
| "JsonValue (Object props) = list_all (\<lambda>entry. JsonValue (snd entry)) props"

section \<open>The engine\<close>

text \<open>
  What the library takes from the engine and the language fixes only in part:
  whether \<^verbatim>\<open>Object.prototype\<close> carries the \<^verbatim>\<open>__proto__\<close> accessor (Node, Bun and
  browsers do; Deno deletes it), the decimal digits \<^verbatim>\<open>Number::toString\<close> gives a
  positive finite Number, and the Number a JSON number token denotes.
\<close>

record runtime =
  proto_accessor :: bool
  NumberToString :: "rat \<Rightarrow> jsstring"
  StringToNumber :: "jsstring \<Rightarrow> number"

subsection \<open>Array.prototype.sort\<close>

text \<open>
  \<^verbatim>\<open>SortCompare\<close>: without a comparator, strings are compared by code units; with one,
  only the sign of its result is used (the model gives the result as an integer, NaN
  counting as 0). The sort is stable; for a comparator that is not consistent the language
  leaves the order to the implementation, and the model is insertion sort.
\<close>

definition SortCompare :: "(jsstring \<Rightarrow> jsstring \<Rightarrow> int) option \<Rightarrow> jsstring \<Rightarrow> jsstring \<Rightarrow> int" where
  "SortCompare comparefn x y =
     (case comparefn of
        Some f \<Rightarrow> f x y
      | None \<Rightarrow> if x < y then - 1 else if y < x then 1 else 0)"

fun insert_sorted :: "('a \<Rightarrow> 'a \<Rightarrow> int) \<Rightarrow> 'a \<Rightarrow> 'a list \<Rightarrow> 'a list" where
  "insert_sorted c x [] = [x]"
| "insert_sorted c x (y # ys) = (if c x y \<le> 0 then x # y # ys else y # insert_sorted c x ys)"

definition Array_sort :: "jsstring list \<Rightarrow> (jsstring \<Rightarrow> jsstring \<Rightarrow> int) option \<Rightarrow> jsstring list" where
  "Array_sort xs comparefn = foldr (insert_sorted (SortCompare comparefn)) xs []"

subsection \<open>Own properties of an ordinary object\<close>

text \<open>
  \<^verbatim>\<open>OrdinaryOwnPropertyKeys\<close> lists the keys that are array indices (canonical numeric
  strings up to \<open>2^32 - 2\<close>) first, in ascending numeric order, and the other string keys
  after them in the order of their creation. A property list is kept in that order:
  creating a property with an array index as key puts it at its numeric place, any other
  new key goes to the end, and writing an existing property keeps its place.
\<close>

definition is_digit :: "16 word \<Rightarrow> bool" where
  "is_digit c = (0x30 \<le> c \<and> c \<le> 0x39)"

definition digit_value :: "16 word \<Rightarrow> int" where
  "digit_value c = uint c - 48"

definition numeric_value :: "jsstring \<Rightarrow> int" where
  "numeric_value k = foldl (\<lambda>n c. 10 * n + digit_value c) 0 k"

definition is_array_index :: "jsstring \<Rightarrow> bool" where
  "is_array_index k =
     (k \<noteq> [] \<and> list_all is_digit k \<and> (k = [0x30] \<or> take 1 k \<noteq> [0x30])
      \<and> numeric_value k \<le> 4294967294)"

fun insert_index :: "jsstring \<Rightarrow> 'v \<Rightarrow> (jsstring \<times> 'v) list \<Rightarrow> (jsstring \<times> 'v) list" where
  "insert_index k v [] = [(k, v)]"
| "insert_index k v (p # ps) =
     (if is_array_index (fst p) \<and> numeric_value (fst p) < numeric_value k
      then p # insert_index k v ps
      else (k, v) # p # ps)"

definition CreateDataProperty :: "(jsstring \<times> 'v) list \<Rightarrow> jsstring \<Rightarrow> 'v \<Rightarrow> (jsstring \<times> 'v) list" where
  "CreateDataProperty props k v =
     (if k \<in> fst ` set props then AList.update k v props
      else if is_array_index k then insert_index k v props
      else props @ [(k, v)])"

text \<open>
  \<^verbatim>\<open>newObj[key] = v\<close> on an object made by \<^verbatim>\<open>{}\<close>: where the accessor exists, the
  key \<^verbatim>\<open>__proto__\<close> reaches its setter, which creates no own property; every other key
  is created or written as an own data property.
\<close>

definition assign :: "runtime \<Rightarrow> (jsstring \<times> 'v) list \<Rightarrow> jsstring \<Rightarrow> 'v \<Rightarrow> (jsstring \<times> 'v) list" where
  "assign rt newObj key v =
     (if proto_accessor rt \<and> key = str ''__proto__'' then newObj
      else CreateDataProperty newObj key v)"

definition Object_keys :: "(jsstring \<times> 'v) list \<Rightarrow> jsstring list" where
  "Object_keys props = map fst props"

section \<open>canonicalize (src/canonicalize.ts)\<close>

text \<open>
  The four cases of the source in its order. The array loop pushes the canonical form of
  each element. The object loop runs over the sorted keys; \<open>map_of props key\<close> is
  \<^verbatim>\<open>hasOwnProperty\<close> (\<open>None\<close> when the key is not an own property) together with
  \<^verbatim>\<open>value[key]\<close>.
\<close>

function (sequential) canonicalize ::
  "runtime \<Rightarrow> JsonLikeValue \<Rightarrow> (jsstring \<Rightarrow> jsstring \<Rightarrow> int) option \<Rightarrow> JsonLikeValue" where
  "canonicalize rt Undefined compareFn = Primitive JNull"
| "canonicalize rt (Primitive p) compareFn = Primitive p"
| "canonicalize rt (Array elements) compareFn =
     Array (foldl (\<lambda>newArray element. newArray @ [canonicalize rt element compareFn]) [] elements)"
| "canonicalize rt (Object props) compareFn =
     Object (foldl
       (\<lambda>newObj key.
          case map_of props key of
            None \<Rightarrow> newObj
          | Some propertyValue \<Rightarrow>
              if propertyValue \<noteq> Undefined
              then assign rt newObj key (canonicalize rt propertyValue compareFn)
              else newObj)
       [] (Array_sort (Object_keys props) compareFn))"
  by pat_completeness auto
termination
proof (relation "measure (\<lambda>(rt, v, c). size v)")
  show "wf (measure (\<lambda>(rt, v, c). size v))"
    by simp
next
  fix rt :: runtime and elements :: "JsonLikeValue list"
    and compareFn :: "(jsstring \<Rightarrow> jsstring \<Rightarrow> int) option" and element
  assume "element \<in> set elements"
  then have "size element < Suc (size_list size elements)"
    by (induction elements) auto
  then show "((rt, element, compareFn), (rt, Array elements, compareFn))
      \<in> measure (\<lambda>(rt, v, c). size v)"
    by simp
next
  fix rt :: runtime and props :: "(jsstring \<times> JsonLikeValue) list"
    and compareFn :: "(jsstring \<Rightarrow> jsstring \<Rightarrow> int) option" and key propertyValue
  assume "map_of props key = Some propertyValue"
  then have "size propertyValue < Suc (size_list (size_prod (\<lambda>_. 0) size) props)"
    by (induction props) (auto split: if_splits)
  then show "((rt, propertyValue, compareFn), (rt, Object props, compareFn))
      \<in> measure (\<lambda>(rt, v, c). size v)"
    by simp
qed

section \<open>JSON.stringify and createCanonicalJsonString (src/stringify.ts)\<close>

subsection \<open>QuoteJSONString\<close>

definition hex_digit :: "int \<Rightarrow> 16 word" where
  "hex_digit d = (if d < 10 then word_of_int (48 + d) else word_of_int (87 + d))"

definition UnicodeEscape :: "16 word \<Rightarrow> jsstring" where
  "UnicodeEscape c =
     [0x5C, 0x75,
      hex_digit (uint c div 4096 mod 16), hex_digit (uint c div 256 mod 16),
      hex_digit (uint c div 16 mod 16), hex_digit (uint c mod 16)]"

definition is_leading_surrogate :: "16 word \<Rightarrow> bool" where
  "is_leading_surrogate c = (0xD800 \<le> c \<and> c \<le> 0xDBFF)"

definition is_trailing_surrogate :: "16 word \<Rightarrow> bool" where
  "is_trailing_surrogate c = (0xDC00 \<le> c \<and> c \<le> 0xDFFF)"

text \<open>
  Backspace, tab, line feed, form feed, carriage return, the double quote and the backslash
  have two-character escapes; the other code units below U+0020 are written
  \<^verbatim>\<open>\uXXXX\<close>.
\<close>

definition escape_code_unit :: "16 word \<Rightarrow> jsstring" where
  "escape_code_unit c =
     (if c = 0x08 then [0x5C, 0x62]
      else if c = 0x09 then [0x5C, 0x74]
      else if c = 0x0A then [0x5C, 0x6E]
      else if c = 0x0C then [0x5C, 0x66]
      else if c = 0x0D then [0x5C, 0x72]
      else if c = 0x22 then [0x5C, 0x22]
      else if c = 0x5C then [0x5C, 0x5C]
      else if c < 0x20 then UnicodeEscape c
      else [c])"

text \<open>
  The string is read by code points: a leading surrogate followed by a trailing one is a
  pair and is copied; a surrogate that stands alone is written \<^verbatim>\<open>\uXXXX\<close>.
\<close>

fun quote_code_units :: "jsstring \<Rightarrow> jsstring" where
  "quote_code_units [] = []"
| "quote_code_units [c] =
     (if is_leading_surrogate c \<or> is_trailing_surrogate c then UnicodeEscape c
      else escape_code_unit c)"
| "quote_code_units (c # d # ds) =
     (if is_leading_surrogate c \<and> is_trailing_surrogate d then c # d # quote_code_units ds
      else if is_leading_surrogate c \<or> is_trailing_surrogate c
        then UnicodeEscape c @ quote_code_units (d # ds)
      else escape_code_unit c @ quote_code_units (d # ds))"

definition QuoteJSONString :: "jsstring \<Rightarrow> jsstring" where
  "QuoteJSONString s = [0x22] @ quote_code_units s @ [0x22]"

subsection \<open>Numbers\<close>

definition Number_toString :: "runtime \<Rightarrow> number \<Rightarrow> jsstring" where
  "Number_toString rt x =
     (case x of
        NaN \<Rightarrow> str ''NaN''
      | PosInfinity \<Rightarrow> str ''Infinity''
      | NegInfinity \<Rightarrow> str ''-Infinity''
      | NegZero \<Rightarrow> str ''0''
      | Finite r \<Rightarrow>
          if r = 0 then str ''0''
          else if r < 0 then 0x2D # NumberToString rt (- r)
          else NumberToString rt r)"

definition is_finite :: "number \<Rightarrow> bool" where
  "is_finite x = (case x of NaN \<Rightarrow> False | PosInfinity \<Rightarrow> False | NegInfinity \<Rightarrow> False | _ \<Rightarrow> True)"

subsection \<open>SerializeJSONProperty\<close>

fun join :: "jsstring \<Rightarrow> jsstring list \<Rightarrow> jsstring" where
  "join separator [] = []"
| "join separator [x] = x"
| "join separator (x # y # ys) = x @ separator @ join separator (y # ys)"

text \<open>
  \<open>None\<close> is the result \<^verbatim>\<open>undefined\<close>: an array writes it as \<^verbatim>\<open>null\<close>, an object
  leaves the property out. \<open>gap\<close> is the indentation unit and \<open>indent\<close> the current
  indentation. The values of the library have no \<^verbatim>\<open>toJSON\<close> method.
\<close>

function (sequential) SerializeJSONProperty ::
  "runtime \<Rightarrow> jsstring \<Rightarrow> jsstring \<Rightarrow> JsonLikeValue \<Rightarrow> jsstring option" where
  "SerializeJSONProperty rt gap indent Undefined = None"
| "SerializeJSONProperty rt gap indent (Primitive JNull) = Some (str ''null'')"
| "SerializeJSONProperty rt gap indent (Primitive (JBoolean b)) =
     Some (if b then str ''true'' else str ''false'')"
| "SerializeJSONProperty rt gap indent (Primitive (JString s)) = Some (QuoteJSONString s)"
| "SerializeJSONProperty rt gap indent (Primitive (JNumber x)) =
     Some (if is_finite x then Number_toString rt x else str ''null'')"
| "SerializeJSONProperty rt gap indent (Array elements) =
     (let stepback = indent;
          indent = indent @ gap;
          partial = map (\<lambda>element.
                      case SerializeJSONProperty rt gap indent element of
                        None \<Rightarrow> str ''null''
                      | Some strP \<Rightarrow> strP) elements
      in Some (if partial = [] then str ''[]''
               else if gap = [] then [0x5B] @ join [0x2C] partial @ [0x5D]
               else [0x5B, 0x0A] @ indent @ join ([0x2C, 0x0A] @ indent) partial
                    @ [0x0A] @ stepback @ [0x5D]))"
| "SerializeJSONProperty rt gap indent (Object props) =
     (let stepback = indent;
          indent = indent @ gap;
          partial = concat (map (\<lambda>entry.
                      case SerializeJSONProperty rt gap indent (snd entry) of
                        None \<Rightarrow> []
                      | Some strP \<Rightarrow>
                          [QuoteJSONString (fst entry) @ [0x3A]
                           @ (if gap \<noteq> [] then [0x20] else []) @ strP]) props)
      in Some (if partial = [] then str ''{}''
               else if gap = [] then [0x7B] @ join [0x2C] partial @ [0x7D]
               else [0x7B, 0x0A] @ indent @ join ([0x2C, 0x0A] @ indent) partial
                    @ [0x0A] @ stepback @ [0x7D]))"
  by pat_completeness auto
termination
proof (relation "measure (\<lambda>(rt, gap, indent, v). size v)")
  show "wf (measure (\<lambda>(rt, gap, indent, v). size v))"
    by simp
next
  fix rt :: runtime and gap indent :: jsstring and elements :: "JsonLikeValue list"
    and x xa :: jsstring and element
  assume "element \<in> set elements"
  then have "size element < Suc (size_list size elements)"
    by (induction elements) auto
  then show "((rt, gap, xa, element), (rt, gap, indent, Array elements))
      \<in> measure (\<lambda>(rt, gap, indent, v). size v)"
    by simp
next
  fix rt :: runtime and gap indent :: jsstring and props :: "(jsstring \<times> JsonLikeValue) list"
    and x xa :: jsstring and entry
  assume "entry \<in> set props"
  then have "size (snd entry) < Suc (size_list (size_prod (\<lambda>_. 0) size) props)"
    by (induction props) auto
  then show "((rt, gap, xa, snd entry), (rt, gap, indent, Object props))
      \<in> measure (\<lambda>(rt, gap, indent, v). size v)"
    by simp
qed

text \<open>
  The \<^verbatim>\<open>space\<close> argument: a Number gives that many spaces, at most ten, and a
  string gives its first ten code units.
\<close>

datatype space = SpaceNumber number | SpaceString jsstring

definition gap_of :: "space option \<Rightarrow> jsstring" where
  "gap_of space =
     (case space of
        None \<Rightarrow> []
      | Some (SpaceString s) \<Rightarrow> take 10 s
      | Some (SpaceNumber x) \<Rightarrow>
          (case x of
             PosInfinity \<Rightarrow> replicate 10 0x20
           | Finite r \<Rightarrow> replicate (nat (min 10 \<lfloor>r\<rfloor>)) 0x20
           | _ \<Rightarrow> []))"

definition JSON_stringify :: "runtime \<Rightarrow> JsonLikeValue \<Rightarrow> space option \<Rightarrow> jsstring option" where
  "JSON_stringify rt v space = SerializeJSONProperty rt (gap_of space) [] v"

text \<open>
  \<^verbatim>\<open>createCanonicalJsonString(item, canonicalizer = canonicalize, space)\<close>: an omitted
  canonicalizer is \<^verbatim>\<open>canonicalize\<close>, called with the item alone.
\<close>

definition createCanonicalJsonString ::
  "runtime \<Rightarrow> JsonLikeValue \<Rightarrow> (JsonLikeValue \<Rightarrow> JsonLikeValue) option \<Rightarrow> space option
     \<Rightarrow> jsstring option" where
  "createCanonicalJsonString rt item canonicalizer space =
     (let canonicalItem =
            (case canonicalizer of
               None \<Rightarrow> canonicalize rt item None
             | Some f \<Rightarrow> f item)
      in JSON_stringify rt canonicalItem space)"

section \<open>dedupeBy and semanticDedupe (src/dedupe.ts)\<close>

text \<open>
  The loop keeps the set of seen keys and the list of kept items.
\<close>

definition dedupeBy :: "'t list \<Rightarrow> ('t \<Rightarrow> 'k) \<Rightarrow> 't list" where
  "dedupeBy items stringifier =
     snd (foldl
       (\<lambda>(seen, uniqueItems) item.
          let key = stringifier item
          in if key \<notin> seen then (insert key seen, uniqueItems @ [item])
             else (seen, uniqueItems))
       ({}, []) items)"

definition semanticDedupe :: "runtime \<Rightarrow> JsonLikeValue list \<Rightarrow> JsonLikeValue list" where
  "semanticDedupe rt items = dedupeBy items (\<lambda>item. createCanonicalJsonString rt item None None)"

section \<open>semanticEquals (src/compare.ts)\<close>

text \<open>
  \<^verbatim>\<open>===\<close> compares primitives by value and objects by identity, so an argument is a
  primitive, \<^verbatim>\<open>undefined\<close>, or a reference to an array or object in the heap.
  Two Numbers are equal when neither is NaN and they are the same value or both zeros.
\<close>

datatype jsvalue = PrimitiveValue JsonPrimitive | UndefinedValue | ObjectRef nat

type_synonym heap = "nat \<Rightarrow> JsonLikeValue"

fun deref :: "heap \<Rightarrow> jsvalue \<Rightarrow> JsonLikeValue" where
  "deref h (PrimitiveValue p) = Primitive p"
| "deref h UndefinedValue = Undefined"
| "deref h (ObjectRef r) = h r"

definition Number_equal :: "number \<Rightarrow> number \<Rightarrow> bool" where
  "Number_equal x y =
     (x \<noteq> NaN \<and> y \<noteq> NaN
      \<and> (x = y \<or> (x = NegZero \<or> x = Finite 0) \<and> (y = NegZero \<or> y = Finite 0)))"

fun IsStrictlyEqual :: "jsvalue \<Rightarrow> jsvalue \<Rightarrow> bool" where
  "IsStrictlyEqual (PrimitiveValue (JNumber x)) (PrimitiveValue (JNumber y)) = Number_equal x y"
| "IsStrictlyEqual (PrimitiveValue p) (PrimitiveValue q) = (p = q)"
| "IsStrictlyEqual UndefinedValue UndefinedValue = True"
| "IsStrictlyEqual (ObjectRef r) (ObjectRef s) = (r = s)"
| "IsStrictlyEqual a b = False"

definition semanticEquals :: "runtime \<Rightarrow> heap \<Rightarrow> jsvalue \<Rightarrow> jsvalue \<Rightarrow> bool" where
  "semanticEquals rt h a b =
     (if IsStrictlyEqual a b then True
      else createCanonicalJsonString rt (deref h a) None None
           = createCanonicalJsonString rt (deref h b) None None)"

section \<open>parse and safeParse (src/parse.ts)\<close>

text \<open>
  What a call may throw: a \<^verbatim>\<open>SyntaxError\<close> with its message, or any other value,
  given by the string the template literal \<^verbatim>\<open>${error}\<close> makes of it.
  \<^verbatim>\<open>parse\<close> calls the engine's \<^verbatim>\<open>JSON.parse\<close>, here its first argument
  \<open>codec\<close>, and lets what it throws pass.
\<close>

datatype thrown = SyntaxError jsstring | OtherError jsstring

definition parse :: "(jsstring \<Rightarrow> thrown + JsonLikeValue) \<Rightarrow> jsstring \<Rightarrow> thrown + JsonLikeValue" where
  "parse codec jsonString = codec jsonString"

datatype safeParseResult = Success JsonLikeValue | Failure thrown

definition safeParse :: "(jsstring \<Rightarrow> thrown + JsonLikeValue) \<Rightarrow> jsstring \<Rightarrow> safeParseResult" where
  "safeParse codec jsonString =
     (case parse codec jsonString of
        Inr data \<Rightarrow> Success data
      | Inl error \<Rightarrow>
          (case error of
             SyntaxError message \<Rightarrow> Failure error
           | OtherError text \<Rightarrow> Failure (SyntaxError (str ''Unknown parsing error: '' @ text))))"

section \<open>JSON.parse\<close>

text \<open>
  The engine's \<^verbatim>\<open>JSON.parse\<close> on a string, without reviver: the text is one JSON
  value between optional white space (tab, line feed, carriage return, space). A parser
  returns the value read and the rest of the text, or \<open>None\<close> where the text is not JSON.
\<close>

definition is_ws :: "16 word \<Rightarrow> bool" where
  "is_ws c = (c = 0x09 \<or> c = 0x0A \<or> c = 0x0D \<or> c = 0x20)"

definition skip_ws :: "jsstring \<Rightarrow> jsstring" where
  "skip_ws s = dropWhile is_ws s"

subsection \<open>Strings\<close>

definition hex_value :: "16 word \<Rightarrow> int option" where
  "hex_value c =
     (if 0x30 \<le> c \<and> c \<le> 0x39 then Some (uint c - 48)
      else if 0x41 \<le> c \<and> c \<le> 0x46 then Some (uint c - 55)
      else if 0x61 \<le> c \<and> c \<le> 0x66 then Some (uint c - 87)
      else None)"

definition hex4 :: "16 word \<Rightarrow> 16 word \<Rightarrow> 16 word \<Rightarrow> 16 word \<Rightarrow> 16 word option" where
  "hex4 a b c d =
     (case hex_value a of None \<Rightarrow> None | Some x3 \<Rightarrow>
     (case hex_value b of None \<Rightarrow> None | Some x2 \<Rightarrow>
     (case hex_value c of None \<Rightarrow> None | Some x1 \<Rightarrow>
     (case hex_value d of None \<Rightarrow> None | Some x0 \<Rightarrow>
        Some (word_of_int (((x3 * 16 + x2) * 16 + x1) * 16 + x0))))))"

definition simple_escape :: "16 word \<Rightarrow> 16 word option" where
  "simple_escape e =
     (if e = 0x22 then Some 0x22
      else if e = 0x5C then Some 0x5C
      else if e = 0x2F then Some 0x2F
      else if e = 0x62 then Some 0x08
      else if e = 0x66 then Some 0x0C
      else if e = 0x6E then Some 0x0A
      else if e = 0x72 then Some 0x0D
      else if e = 0x74 then Some 0x09
      else None)"

text \<open>
  The characters of a string after its opening quote, up to the closing one. A code unit
  below U+0020 must be escaped.
\<close>

fun parse_string_chars :: "jsstring \<Rightarrow> (jsstring \<times> jsstring) option" where
  "parse_string_chars [] = None"
| "parse_string_chars (c # cs) =
     (if c = 0x22 then Some ([], cs)
      else if c = 0x5C then
        (case cs of
           [] \<Rightarrow> None
         | e # es \<Rightarrow>
             if e = 0x75 then
               (case es of
                  x3 # x2 # x1 # x0 # rest \<Rightarrow>
                    (case hex4 x3 x2 x1 x0 of
                       None \<Rightarrow> None
                     | Some u \<Rightarrow>
                         map_option (\<lambda>(s, r). (u # s, r)) (parse_string_chars rest))
                | _ \<Rightarrow> None)
             else
               (case simple_escape e of
                  None \<Rightarrow> None
                | Some u \<Rightarrow> map_option (\<lambda>(s, r). (u # s, r)) (parse_string_chars es)))
      else if c < 0x20 then None
      else map_option (\<lambda>(s, r). (c # s, r)) (parse_string_chars cs))"

subsection \<open>Number tokens\<close>

text \<open>
  \<^verbatim>\<open>-? (0 | [1-9][0-9]*) (. [0-9]+)? ([eE] [+-]? [0-9]+)?\<close>; each part returns
  the code units it takes and the rest.
\<close>

definition lex_sign :: "jsstring \<Rightarrow> jsstring \<times> jsstring" where
  "lex_sign s = (case s of c # cs \<Rightarrow> if c = 0x2D then ([c], cs) else ([], s) | [] \<Rightarrow> ([], s))"

definition lex_int :: "jsstring \<Rightarrow> (jsstring \<times> jsstring) option" where
  "lex_int s =
     (case s of
        [] \<Rightarrow> None
      | c # cs \<Rightarrow>
          if c = 0x30 then Some ([c], cs)
          else if is_digit c then Some (c # takeWhile is_digit cs, dropWhile is_digit cs)
          else None)"

definition lex_frac :: "jsstring \<Rightarrow> (jsstring \<times> jsstring) option" where
  "lex_frac s =
     (case s of
        [] \<Rightarrow> Some ([], s)
      | c # cs \<Rightarrow>
          if c = 0x2E then
            (if takeWhile is_digit cs = [] then None
             else Some (c # takeWhile is_digit cs, dropWhile is_digit cs))
          else Some ([], s))"

definition lex_exp :: "jsstring \<Rightarrow> (jsstring \<times> jsstring) option" where
  "lex_exp s =
     (case s of
        [] \<Rightarrow> Some ([], s)
      | c # cs \<Rightarrow>
          if c = 0x65 \<or> c = 0x45 then
            (let (sign, ds) =
                   (case cs of
                      d # ds \<Rightarrow> if d = 0x2B \<or> d = 0x2D then ([d], ds) else ([], cs)
                    | [] \<Rightarrow> ([], cs))
             in if takeWhile is_digit ds = [] then None
                else Some (c # sign @ takeWhile is_digit ds, dropWhile is_digit ds))
          else Some ([], s))"

definition lex_number :: "jsstring \<Rightarrow> (jsstring \<times> jsstring) option" where
  "lex_number s =
     (let (sign, s1) = lex_sign s
      in (case lex_int s1 of None \<Rightarrow> None | Some (i, s2) \<Rightarrow>
         (case lex_frac s2 of None \<Rightarrow> None | Some (f, s3) \<Rightarrow>
         (case lex_exp s3 of None \<Rightarrow> None | Some (e, s4) \<Rightarrow>
            Some (sign @ i @ f @ e, s4)))))"

subsection \<open>Values\<close>

text \<open>
  The first argument after the runtime bounds the number of nested calls; \<open>JSON_parse\<close>
  starts with more than any text needs, since every call but the first of an array's or
  object's body follows at least one code unit read. An object's members are created in
  the order of the text as own data properties (\<^verbatim>\<open>__proto__\<close> too), a repeated key
  overwriting the earlier value.
\<close>

fun parse_value :: "runtime \<Rightarrow> nat \<Rightarrow> jsstring \<Rightarrow> (JsonLikeValue \<times> jsstring) option"
  and parse_elements ::
    "runtime \<Rightarrow> nat \<Rightarrow> JsonLikeValue list \<Rightarrow> jsstring \<Rightarrow> (JsonLikeValue \<times> jsstring) option"
  and parse_members ::
    "runtime \<Rightarrow> nat \<Rightarrow> (jsstring \<times> JsonLikeValue) list \<Rightarrow> jsstring
       \<Rightarrow> (JsonLikeValue \<times> jsstring) option"
where
  "parse_value rt 0 s = None"
| "parse_value rt (Suc n) [] = None"
| "parse_value rt (Suc n) (c # cs) =
     (if c = 0x7B then
        (case skip_ws cs of
           [] \<Rightarrow> None
         | d # ds \<Rightarrow> if d = 0x7D then Some (Object [], ds) else parse_members rt n [] (d # ds))
      else if c = 0x5B then
        (case skip_ws cs of
           [] \<Rightarrow> None
         | d # ds \<Rightarrow> if d = 0x5D then Some (Array [], ds) else parse_elements rt n [] (d # ds))
      else if c = 0x22 then
        map_option (\<lambda>(s, r). (Primitive (JString s), r)) (parse_string_chars cs)
      else if c = 0x2D \<or> is_digit c then
        map_option (\<lambda>(token, r). (Primitive (JNumber (StringToNumber rt token)), r))
          (lex_number (c # cs))
      else if take 4 (c # cs) = str ''null'' then Some (Primitive JNull, drop 4 (c # cs))
      else if take 4 (c # cs) = str ''true'' then Some (Primitive (JBoolean True), drop 4 (c # cs))
      else if take 5 (c # cs) = str ''false'' then Some (Primitive (JBoolean False), drop 5 (c # cs))
      else None)"
| "parse_elements rt 0 elements s = None"
| "parse_elements rt (Suc n) elements s =
     (case parse_value rt n s of
        None \<Rightarrow> None
      | Some (v, r) \<Rightarrow>
          (case skip_ws r of
             [] \<Rightarrow> None
           | d # ds \<Rightarrow>
               if d = 0x2C then parse_elements rt n (elements @ [v]) (skip_ws ds)
               else if d = 0x5D then Some (Array (elements @ [v]), ds)
               else None))"
| "parse_members rt 0 members s = None"
| "parse_members rt (Suc n) members [] = None"
| "parse_members rt (Suc n) members (q # cs) =
     (if q \<noteq> 0x22 then None
      else
        (case parse_string_chars cs of
           None \<Rightarrow> None
         | Some (k, r) \<Rightarrow>
             (case skip_ws r of
                [] \<Rightarrow> None
              | colon # r1 \<Rightarrow>
                  if colon \<noteq> 0x3A then None
                  else
                    (case parse_value rt n (skip_ws r1) of
                       None \<Rightarrow> None
                     | Some (v, r2) \<Rightarrow>
                         (case skip_ws r2 of
                            [] \<Rightarrow> None
                          | d # ds \<Rightarrow>
                              if d = 0x2C
                                then parse_members rt n (CreateDataProperty members k v) (skip_ws ds)
                              else if d = 0x7D
                                then Some (Object (CreateDataProperty members k v), ds)
                              else None)))))"

text \<open>
  The message of the \<^verbatim>\<open>SyntaxError\<close> is the engine's own; the model has one.
\<close>

definition JSON_parse :: "runtime \<Rightarrow> jsstring \<Rightarrow> thrown + JsonLikeValue" where
  "JSON_parse rt text =
     (case parse_value rt (2 * length text + 2) (skip_ws text) of
        None \<Rightarrow> Inl (SyntaxError (str ''Unexpected token in JSON''))
      | Some (v, r) \<Rightarrow>
          if skip_ws r = [] then Inr v
          else Inl (SyntaxError (str ''Unexpected token in JSON'')))"

section \<open>An engine for examples\<close>

text \<open>
  For a positive integer below \<open>10^21\<close> that is a double, \<^verbatim>\<open>Number::toString\<close>
  gives its decimal digits when the integer has at most 17 significant digits, and a number
  token of digits alone denotes that integer when it is a double. \<open>example_runtime\<close>
  is an engine without the \<^verbatim>\<open>__proto__\<close> accessor that prints the integer part and
  reads a token as the integer its digits give; the examples below use it on small
  integers only.
\<close>

function decimal_digits :: "int \<Rightarrow> jsstring" where
  "decimal_digits n =
     (if n < 10 then [word_of_int (48 + n)]
      else decimal_digits (n div 10) @ [word_of_int (48 + n mod 10)])"
  by pat_completeness auto
termination
  by (relation "measure nat") auto

definition integer_token_value :: "jsstring \<Rightarrow> int" where
  "integer_token_value token =
     (case token of
        [] \<Rightarrow> 0
      | c # cs \<Rightarrow> if c = 0x2D then - numeric_value cs else numeric_value token)"

definition example_runtime :: runtime where
  "example_runtime =
     \<lparr> proto_accessor = False,
       NumberToString = (\<lambda>r. decimal_digits \<lfloor>r\<rfloor>),
       StringToNumber = (\<lambda>token. Finite (of_int (integer_token_value token))) \<rparr>"

section \<open>Notions used in the statements\<close>

text \<open>
  The first occurrence of each key, in the order of the list: the items at the positions
  before which no item has the same key.
\<close>

definition first_occurrences :: "'t list \<Rightarrow> ('t \<Rightarrow> 'k) \<Rightarrow> 't list" where
  "first_occurrences items keyOf =
     map (\<lambda>i. items ! i)
       (filter (\<lambda>i. list_all (\<lambda>j. keyOf (items ! j) \<noteq> keyOf (items ! i)) [0..<i])
          [0..<length items])"

definition is_object_ref :: "jsvalue \<Rightarrow> bool" where
  "is_object_ref a = (case a of ObjectRef r \<Rightarrow> True | _ \<Rightarrow> False)"

text \<open>A heap with an array at address 0 and empty objects elsewhere.\<close>

definition example_heap :: heap where
  "example_heap r = (if r = 0 then Array [Primitive (JNumber (Finite 1))] else Object [])"

text \<open>
  The place of a key among the own properties of an object whose other keys were created
  in ascending order: array indices first, by their number, then the other keys.
\<close>

definition own_property_rank :: "jsstring \<Rightarrow> nat \<times> int \<times> jsstring" where
  "own_property_rank k = (if is_array_index k then (0, numeric_value k, []) else (1, 0, k))"

text \<open>
  A key of the input survives when its value is not \<^verbatim>\<open>undefined\<close> and the assignment
  creates a property for it.
\<close>

definition survives :: "runtime \<Rightarrow> (jsstring \<times> JsonLikeValue) list \<Rightarrow> jsstring \<Rightarrow> bool" where
  "survives rt props key =
     ((case map_of props key of None \<Rightarrow> False | Some propertyValue \<Rightarrow> propertyValue \<noteq> Undefined)
      \<and> \<not> (proto_accessor rt \<and> key = str ''__proto__''))"

text \<open>
  The shape of the results of \<open>canonicalize\<close> under the default order: no
  \<^verbatim>\<open>undefined\<close>, and in every object the keys distinct and in the order of their rank.
\<close>

fun canonical :: "runtime \<Rightarrow> JsonLikeValue \<Rightarrow> bool" where
  "canonical rt Undefined = False"
| "canonical rt (Primitive p) = True"
| "canonical rt (Array elements) = list_all (canonical rt) elements"
| "canonical rt (Object props) =
     (sorted (map (\<lambda>entry. own_property_rank (fst entry)) props)
      \<and> distinct (map fst props)
      \<and> \<not> (proto_accessor rt \<and> str ''__proto__'' \<in> fst ` set props)
      \<and> list_all (\<lambda>entry. canonical rt (snd entry)) props)"


definition own_property_order :: "(jsstring \<times> 'v) list \<Rightarrow> bool" where
  "own_property_order ps =
     (sorted (map (\<lambda>entry. own_property_rank (fst entry)) ps) \<and> distinct (map fst ps))"

section \<open>Loops\<close>

lemma foldl_push: "foldl (\<lambda>acc x. acc @ [f x]) acc xs = acc @ map f xs"
  by (induction xs arbitrary: acc) auto

lemma foldl_invariant:
  assumes "P acc" and "\<And>a k. P a \<Longrightarrow> k \<in> set ks \<Longrightarrow> P (step a k)"
  shows "P (foldl step acc ks)"
  using assms by (induction ks arbitrary: acc) auto

section \<open>Property lists\<close>

lemma set_update_subset: "set (AList.update k v ps) \<subseteq> insert (k, v) (set ps)"
  by (induction ps) auto

lemma set_insert_index: "set (insert_index k v ps) = insert (k, v) (set ps)"
  by (induction ps) auto

lemma set_CreateDataProperty: "set (CreateDataProperty ps k v) \<subseteq> insert (k, v) (set ps)"
  using set_update_subset [of k v ps]
  by (auto simp add: CreateDataProperty_def set_insert_index)

lemma set_assign: "set (assign rt ps k v) \<subseteq> insert (k, v) (set ps)"
  using set_CreateDataProperty [of ps k v] by (auto simp add: assign_def)

section \<open>The canonical form is strict\<close>

text \<open>
  C1. Whatever the value and the comparator, the result of \<open>canonicalize\<close> is a
  \<^verbatim>\<open>JsonValue\<close>: \<^verbatim>\<open>undefined\<close> occurs nowhere in it, neither at the top, nor as an
  array element, nor as a property value, at any depth.
\<close>

theorem canonicalize_strict: "JsonValue (canonicalize rt v compareFn)"
proof (induction rt v compareFn rule: canonicalize.induct)
  case (1 rt compareFn)
  show ?case by simp
next
  case (2 rt p compareFn)
  show ?case by simp
next
  case (3 rt elements compareFn)
  then show ?case
    by (simp add: foldl_push list_all_iff)
next
  case (4 rt props compareFn)
  let ?step = "\<lambda>newObj key.
          case map_of props key of
            None \<Rightarrow> newObj
          | Some propertyValue \<Rightarrow>
              if propertyValue \<noteq> Undefined
              then assign rt newObj key (canonicalize rt propertyValue compareFn)
              else newObj"
  have "list_all (\<lambda>entry. JsonValue (snd entry))
          (foldl ?step [] (Array_sort (Object_keys props) compareFn))"
  proof (rule foldl_invariant)
    show "list_all (\<lambda>entry. JsonValue (snd entry)) []"
      by simp
  next
    fix a :: "(jsstring \<times> JsonLikeValue) list" and k
    assume a: "list_all (\<lambda>entry. JsonValue (snd entry)) a"
      and k: "k \<in> set (Array_sort (Object_keys props) compareFn)"
    show "list_all (\<lambda>entry. JsonValue (snd entry)) (?step a k)"
    proof (cases "map_of props k")
      case None
      with a show ?thesis by simp
    next
      case (Some pv)
      show ?thesis
      proof (cases "pv = Undefined")
        case True
        with a Some show ?thesis by simp
      next
        case False
        with "4.IH" [OF k Some] have "JsonValue (canonicalize rt pv compareFn)"
          by simp
        with a set_assign [of rt a k "canonicalize rt pv compareFn"] Some False
        show ?thesis
          by (auto simp add: list_all_iff)
      qed
    qed
  qed
  then show ?case by simp
qed

section \<open>Arrays\<close>

text \<open>
  C3. The canonical form of an array is the array of the canonical forms of its elements,
  in their order and as many; \<^verbatim>\<open>undefined\<close>, at the top or as an element, becomes
  \<^verbatim>\<open>null\<close>, and a primitive is returned as it is.
\<close>

theorem canonicalize_sequence:
  "canonicalize rt (Array elements) compareFn
     = Array (map (\<lambda>element. canonicalize rt element compareFn) elements)
   \<and> length (map (\<lambda>element. canonicalize rt element compareFn) elements) = length elements
   \<and> canonicalize rt Undefined compareFn = Primitive JNull
   \<and> canonicalize rt (Primitive p) compareFn = Primitive p"
  by (simp add: foldl_push)

section \<open>dedupeBy\<close>

lemma first_occurrences_snoc:
  "first_occurrences (xs @ [x]) f =
     first_occurrences xs f @ (if f x \<in> f ` set xs then [] else [x])"
proof -
  have old: "filter (\<lambda>i. list_all (\<lambda>j. f ((xs @ [x]) ! j) \<noteq> f ((xs @ [x]) ! i)) [0..<i])
               [0..<length xs]
        = filter (\<lambda>i. list_all (\<lambda>j. f (xs ! j) \<noteq> f (xs ! i)) [0..<i]) [0..<length xs]"
    by (rule filter_cong) (auto simp add: list_all_iff nth_append)
  have "(\<forall>j\<in>{0..<length xs}. f (xs ! j) \<noteq> f x) \<longleftrightarrow> f x \<notin> f ` set xs"
  proof
    assume a: "\<forall>j\<in>{0..<length xs}. f (xs ! j) \<noteq> f x"
    show "f x \<notin> f ` set xs"
    proof
      assume "f x \<in> f ` set xs"
      then obtain y where "y \<in> set xs" and "f x = f y"
        by blast
      then obtain j where "j < length xs" and "xs ! j = y"
        by (auto simp add: in_set_conv_nth)
      with a \<open>f x = f y\<close> show False
        by auto
    qed
  next
    assume a: "f x \<notin> f ` set xs"
    show "\<forall>j\<in>{0..<length xs}. f (xs ! j) \<noteq> f x"
    proof
      fix j assume "j \<in> {0..<length xs}"
      then have "xs ! j \<in> set xs"
        by simp
      with a show "f (xs ! j) \<noteq> f x"
        by (metis imageI)
    qed
  qed
  then have new: "list_all (\<lambda>j. f ((xs @ [x]) ! j) \<noteq> f x) [0..<length xs]
      \<longleftrightarrow> f x \<notin> f ` set xs"
    by (simp add: list_all_iff nth_append)
  have m: "map (\<lambda>i. (xs @ [x]) ! i)
             (filter (\<lambda>i. list_all (\<lambda>j. f (xs ! j) \<noteq> f (xs ! i)) [0..<i]) [0..<length xs])
       = map (\<lambda>i. xs ! i)
             (filter (\<lambda>i. list_all (\<lambda>j. f (xs ! j) \<noteq> f (xs ! i)) [0..<i]) [0..<length xs])"
    by (rule map_cong) (auto simp add: nth_append)
  show ?thesis
    using new by (simp add: first_occurrences_def old m)
qed

lemma dedupe_loop:
  "foldl (\<lambda>(seen, uniqueItems) item.
          let key = f item
          in if key \<notin> seen then (insert key seen, uniqueItems @ [item])
             else (seen, uniqueItems)) ({}, []) xs
    = (f ` set xs, first_occurrences xs f)"
proof (induction xs rule: rev_induct)
  case Nil
  show ?case by (simp add: first_occurrences_def)
next
  case (snoc x xs)
  then show ?case
    by (auto simp add: first_occurrences_snoc Let_def)
qed

lemma subseq_first_occurrences: "subseq (first_occurrences xs f) xs"
proof (induction xs rule: rev_induct)
  case Nil
  show ?case by (simp add: first_occurrences_def)
next
  case (snoc x xs)
  then show ?case
    by (auto simp add: first_occurrences_snoc
        intro: subseq_rev_drop_many [of _ _ "[x]"] list_emb_append_mono)
qed

text \<open>
  C8. \<open>dedupeBy\<close> returns the first occurrence of each key, in the order of the input:
  the items at the positions before which no item has the same key, which are items of
  the input themselves and form a subsequence of it. An item whose key was seen is left
  out, and nothing else happens.
\<close>

theorem dedupeBy_first_occurrences:
  "dedupeBy items stringifier = first_occurrences items stringifier
   \<and> subseq (dedupeBy items stringifier) items"
  by (simp add: dedupeBy_def dedupe_loop subseq_first_occurrences)

theorem dedupeBy_first_occurrences_witness:
  "dedupeBy [10, 25, 10, 30, 25, 10 :: int] (\<lambda>x. x) = [10, 25, 30]
   \<and> subseq (dedupeBy [10, 25, 10, 30, 25, 10 :: int] (\<lambda>x. x)) [10, 25, 10, 30, 25, 10]"
  using dedupeBy_first_occurrences [of "[10, 25, 10, 30, 25, 10 :: int]" "\<lambda>x. x"]
  by (simp add: first_occurrences_def upt_conv_Cons)

section \<open>safeParse\<close>

text \<open>
  C9. \<open>safeParse\<close> returns a tagged result for every text and whatever the engine's parser
  does: the data, when the text parses; the \<^verbatim>\<open>SyntaxError\<close> thrown, when one is
  thrown; and a new \<^verbatim>\<open>SyntaxError\<close> around anything else thrown. The error of a
  failure is a \<^verbatim>\<open>SyntaxError\<close> in every case.
\<close>

theorem safeParse_tagged:
  "(\<exists>data. parse codec jsonString = Inr data
        \<and> safeParse codec jsonString = Success data)
   \<or> (\<exists>message. parse codec jsonString = Inl (SyntaxError message)
        \<and> safeParse codec jsonString = Failure (SyntaxError message))
   \<or> (\<exists>text. parse codec jsonString = Inl (OtherError text)
        \<and> safeParse codec jsonString
            = Failure (SyntaxError (str ''Unknown parsing error: '' @ text)))"
proof (cases "parse codec jsonString")
  case (Inr data)
  then show ?thesis by (simp add: safeParse_def)
next
  case (Inl error)
  then show ?thesis by (cases error) (simp_all add: safeParse_def)
qed

section \<open>semanticEquals\<close>

lemma strict_equal_same_string:
  assumes "IsStrictlyEqual a b"
  shows "createCanonicalJsonString rt (deref h a) None None
       = createCanonicalJsonString rt (deref h b) None None"
proof (cases a)
  case (PrimitiveValue p)
  with assms obtain q where b: "b = PrimitiveValue q"
    by (cases b) (auto)
  show ?thesis
  proof (cases p)
    case (JNumber x)
    with assms PrimitiveValue b obtain y where q: "q = JNumber y" and "Number_equal x y"
      by (cases q) auto
    then have "is_finite x = is_finite y"
      and "is_finite x \<Longrightarrow> Number_toString rt x = Number_toString rt y"
      by (auto simp add: Number_equal_def is_finite_def Number_toString_def)
    then show ?thesis
      using PrimitiveValue b JNumber q
      by (auto simp add: createCanonicalJsonString_def JSON_stringify_def)
  next
    case (JString s)
    with assms PrimitiveValue b show ?thesis by (cases q) auto
  next
    case (JBoolean x)
    with assms PrimitiveValue b show ?thesis by (cases q) auto
  next
    case JNull
    with assms PrimitiveValue b show ?thesis by (cases q) auto
  qed
next
  case UndefinedValue
  with assms show ?thesis by (cases b) auto
next
  case (ObjectRef r)
  with assms show ?thesis by (cases b) auto
qed

text \<open>
  C6. \<open>semanticEquals\<close> is true exactly when the canonical strings of the two arguments
  are equal: where \<^verbatim>\<open>===\<close> holds, the strings are equal, so the early return changes
  no result.
\<close>

theorem semanticEquals_iff_strings:
  "semanticEquals rt h a b \<longleftrightarrow>
     createCanonicalJsonString rt (deref h a) None None
       = createCanonicalJsonString rt (deref h b) None None"
  using strict_equal_same_string [of a b rt h] by (auto simp add: semanticEquals_def)

text \<open>
  C7, as stated, fails: given one array as both arguments, \<^verbatim>\<open>a === b\<close> holds and
  \<open>semanticEquals\<close> returns at once.
\<close>

theorem fast_path_same_object_counterexample:
  "is_object_ref (ObjectRef 0)
   \<and> deref example_heap (ObjectRef 0) = Array [Primitive (JNumber (Finite 1))]
   \<and> IsStrictlyEqual (ObjectRef 0) (ObjectRef 0)"
  by (simp add: is_object_ref_def example_heap_def)

text \<open>
  C7, amended. When an argument of \<open>semanticEquals\<close> is an array or an object, the check
  before stringification holds only if both arguments are one and the same object; for
  every other such pair the result is the comparison of the canonical strings.
\<close>

theorem fast_path_composite:
  assumes "is_object_ref a \<or> is_object_ref b"
  shows "(IsStrictlyEqual a b \<longleftrightarrow> a = b)
    \<and> (a \<noteq> b \<longrightarrow>
         semanticEquals rt h a b
           = (createCanonicalJsonString rt (deref h a) None None
              = createCanonicalJsonString rt (deref h b) None None))"
proof -
  from assms have "IsStrictlyEqual a b \<longleftrightarrow> a = b"
    by (cases a; cases b) (auto simp add: is_object_ref_def)
  then show ?thesis
    by (simp add: semanticEquals_def)
qed

theorem fast_path_composite_witness:
  "(is_object_ref (ObjectRef 0) \<or> is_object_ref (ObjectRef 1))
   \<and> (IsStrictlyEqual (ObjectRef 0) (ObjectRef 1) \<longleftrightarrow> ObjectRef 0 = ObjectRef 1)
   \<and> semanticEquals example_runtime example_heap (ObjectRef 0) (ObjectRef 1)
       = (createCanonicalJsonString example_runtime (deref example_heap (ObjectRef 0)) None None
          = createCanonicalJsonString example_runtime (deref example_heap (ObjectRef 1)) None None)"
  using fast_path_composite [of "ObjectRef 0" "ObjectRef 1" example_runtime example_heap]
  by (simp add: is_object_ref_def)

section \<open>Sorting\<close>

lemma mset_insert_sorted: "mset (insert_sorted c x ys) = add_mset x (mset ys)"
  by (induction ys) auto

lemma mset_Array_sort: "mset (Array_sort xs comparefn) = mset xs"
  by (induction xs) (auto simp add: Array_sort_def mset_insert_sorted)

lemma set_Array_sort: "set (Array_sort xs comparefn) = set xs"
  using mset_Array_sort [of xs comparefn] by (metis set_mset_mset)

lemma SortCompare_default: "SortCompare None x y \<le> 0 \<longleftrightarrow> x \<le> y"
  by (auto simp add: SortCompare_def)

lemma set_insert_sorted: "set (insert_sorted c x ys) = insert x (set ys)"
  using mset_insert_sorted [of c x ys] by (metis set_mset_mset set_mset_add_mset_insert)

lemma sorted_insert_sorted:
  "sorted ys \<Longrightarrow> sorted (insert_sorted (SortCompare None) x ys)"
  by (induction ys) (auto simp add: SortCompare_default set_insert_sorted)

lemma sorted_Array_sort: "sorted (Array_sort xs None)"
  by (induction xs) (auto simp add: Array_sort_def sorted_insert_sorted)

lemma Array_sort_default: "Array_sort xs None = sort xs"
  using properties_for_sort [of "Array_sort xs None" xs]
  by (simp add: mset_Array_sort sorted_Array_sort)

section \<open>Array indices\<close>

lemma numeric_value_snoc: "numeric_value (k @ [c]) = 10 * numeric_value k + digit_value c"
  by (simp add: numeric_value_def)

lemma digit_value_range: "is_digit c \<Longrightarrow> 0 \<le> digit_value c \<and> digit_value c \<le> 9"
  by (simp add: is_digit_def digit_value_def word_le_def)

lemma digit_value_inject: "digit_value c = digit_value d \<Longrightarrow> c = d"
  by (simp add: digit_value_def word_uint_eq_iff)

lemma digit_value_zero: "digit_value c = 0 \<Longrightarrow> c = 0x30"
  using digit_value_inject [of c "0x30"] by (simp add: digit_value_def)

lemma numeric_value_nonneg: "list_all is_digit k \<Longrightarrow> 0 \<le> numeric_value k"
proof (induction k rule: rev_induct)
  case Nil
  show ?case by (simp add: numeric_value_def)
next
  case (snoc c k)
  then show ?case
    using digit_value_range [of c] by (simp add: numeric_value_snoc)
qed

lemma numeric_value_pos:
  "list_all is_digit k \<Longrightarrow> k \<noteq> [] \<Longrightarrow> hd k \<noteq> 0x30 \<Longrightarrow> 0 < numeric_value k"
proof (induction k rule: rev_induct)
  case Nil
  then show ?case by simp
next
  case (snoc c k)
  show ?case
  proof (cases "k = []")
    case True
    with snoc.prems have "digit_value c \<noteq> 0"
      using digit_value_zero [of c] by auto
    with True snoc.prems digit_value_range [of c] show ?thesis
      by (simp add: numeric_value_snoc numeric_value_def)
  next
    case False
    with snoc have "0 < numeric_value k"
      by simp
    with snoc.prems digit_value_range [of c] show ?thesis
      by (simp add: numeric_value_snoc)
  qed
qed

lemma numeric_value_inject_aux:
  assumes "list_all is_digit a" "a = [] \<or> hd a \<noteq> 0x30"
    and "list_all is_digit b" "b = [] \<or> hd b \<noteq> 0x30"
    and "numeric_value a = numeric_value b"
  shows "a = b"
  using assms
proof (induction a arbitrary: b rule: rev_induct)
  case Nil
  show ?case
  proof (rule ccontr)
    assume "[] \<noteq> b"
    with Nil numeric_value_pos [of b] show False
      by (auto simp add: numeric_value_def)
  qed
next
  case (snoc c a)
  have pos: "0 < numeric_value (a @ [c])"
    using snoc.prems numeric_value_pos [of "a @ [c]"] by simp
  with snoc.prems have "b \<noteq> []"
    by (auto simp add: numeric_value_def)
  then obtain b' d where b: "b = b' @ [d]"
    by (metis rev_exhaust)
  from snoc.prems b have eq: "10 * numeric_value a + digit_value c = 10 * numeric_value b' + digit_value d"
    by (simp add: numeric_value_snoc)
  from snoc.prems b have dc: "0 \<le> digit_value c \<and> digit_value c \<le> 9"
    and dd: "0 \<le> digit_value d \<and> digit_value d \<le> 9"
    using digit_value_range [of c] digit_value_range [of d] by auto
  from eq dc dd have "digit_value c = digit_value d" and n: "numeric_value a = numeric_value b'"
    by presburger+
  then have "c = d"
    by (simp add: digit_value_inject)
  moreover have "a = b'"
  proof (rule snoc.IH)
    show "list_all is_digit a" using snoc.prems by simp
    show "a = [] \<or> hd a \<noteq> 0x30" using snoc.prems by (cases a) auto
    show "list_all is_digit b'" using snoc.prems b by simp
    show "b' = [] \<or> hd b' \<noteq> 0x30" using snoc.prems b by (cases b') auto
    show "numeric_value a = numeric_value b'" by (rule n)
  qed
  ultimately show ?case
    using b by simp
qed

lemma numeric_value_inject:
  assumes "is_array_index a" "is_array_index b" "numeric_value a = numeric_value b"
  shows "a = b"
proof (cases "a = [0x30] \<or> b = [0x30]")
  case True
  have z: "numeric_value [0x30] = 0"
    by (simp add: numeric_value_def digit_value_def)
  show ?thesis
  proof (rule ccontr)
    assume ne: "a \<noteq> b"
    from True show False
    proof
      assume a: "a = [0x30]"
      with ne assms(2) have "list_all is_digit b" "b \<noteq> []" "hd b \<noteq> 0x30"
        by (cases b; auto simp add: is_array_index_def)+
      then have "0 < numeric_value b"
        by (rule numeric_value_pos)
      with assms(3) a z show False by simp
    next
      assume b: "b = [0x30]"
      with ne assms(1) have "list_all is_digit a" "a \<noteq> []" "hd a \<noteq> 0x30"
        by (cases a; auto simp add: is_array_index_def)+
      then have "0 < numeric_value a"
        by (rule numeric_value_pos)
      with assms(3) b z show False by simp
    qed
  qed
next
  case False
  with assms(1) have a: "list_all is_digit a" "a = [] \<or> hd a \<noteq> 0x30"
    by (cases a; auto simp add: is_array_index_def)+
  from False assms(2) have b: "list_all is_digit b" "b = [] \<or> hd b \<noteq> 0x30"
    by (cases b; auto simp add: is_array_index_def)+
  from a b assms(3) show ?thesis
    by (rule numeric_value_inject_aux)
qed

lemma own_property_rank_inject: "own_property_rank a = own_property_rank b \<Longrightarrow> a = b"
  using numeric_value_inject [of a b]
  by (auto simp add: own_property_rank_def split: if_splits)


section \<open>Creating properties\<close>

lemma map_of_insert_index:
  "k \<notin> fst ` set ps \<Longrightarrow> map_of (insert_index k v ps) = (map_of ps)(k \<mapsto> v)"
  by (induction ps) (auto simp add: fun_upd_twist)

lemma map_of_CreateDataProperty: "map_of (CreateDataProperty ps k v) = (map_of ps)(k \<mapsto> v)"
proof (cases "k \<in> fst ` set ps")
  case True
  then show ?thesis
    by (simp add: CreateDataProperty_def update_conv')
next
  case False
  then have "map_of ps k = None"
    by (simp add: map_of_eq_None_iff)
  then have "map_of (ps @ [(k, v)]) = (map_of ps)(k \<mapsto> v)"
    by (auto simp add: map_add_def fun_eq_iff split: option.splits)
  with False show ?thesis
    by (simp add: CreateDataProperty_def map_of_insert_index)
qed

lemma sorted_insert_index:
  assumes "sorted (map (\<lambda>entry. own_property_rank (fst entry)) ps)" and "is_array_index k"
  shows "sorted (map (\<lambda>entry. own_property_rank (fst entry)) (insert_index k v ps))"
  using assms
proof (induction ps)
  case Nil
  show ?case by simp
next
  case (Cons p ps)
  show ?case
  proof (cases "is_array_index (fst p) \<and> numeric_value (fst p) < numeric_value k")
    case True
    with Cons.prems have "own_property_rank (fst p) \<le> own_property_rank k"
      by (simp add: own_property_rank_def)
    with True Cons show ?thesis
      by (auto simp add: set_insert_index)
  next
    case False
    with Cons.prems have le: "own_property_rank k \<le> own_property_rank (fst p)"
      by (auto simp add: own_property_rank_def)
    have "\<forall>q \<in> set ps. own_property_rank k \<le> own_property_rank (fst q)"
    proof
      fix q assume "q \<in> set ps"
      with Cons.prems have "own_property_rank (fst p) \<le> own_property_rank (fst q)"
        by auto
      with le show "own_property_rank k \<le> own_property_rank (fst q)"
        by (rule order_trans)
    qed
    with False le Cons.prems show ?thesis
      by auto
  qed
qed

lemma own_property_order_CreateDataProperty:
  assumes "own_property_order ps"
    and "\<not> is_array_index k \<Longrightarrow> \<forall>k' \<in> fst ` set ps. k' \<le> k"
  shows "own_property_order (CreateDataProperty ps k v)"
    and "fst ` set (CreateDataProperty ps k v) = insert k (fst ` set ps)"
proof -
  have "own_property_order (CreateDataProperty ps k v)
      \<and> fst ` set (CreateDataProperty ps k v) = insert k (fst ` set ps)"
  proof (cases "k \<in> fst ` set ps")
    case True
    then have keys: "map fst (AList.update k v ps) = map fst ps"
      by (simp add: update_keys)
    then have "fst ` set (AList.update k v ps) = fst ` set ps"
      by (metis set_map)
    moreover have "map (\<lambda>entry. own_property_rank (fst entry)) (AList.update k v ps)
        = map (\<lambda>entry. own_property_rank (fst entry)) ps"
      using arg_cong [OF keys, of "map own_property_rank"] by (simp add: comp_def)
    ultimately show ?thesis
      using True assms(1) keys
      by (auto simp add: CreateDataProperty_def own_property_order_def)
  next
    case False
    show ?thesis
    proof (cases "is_array_index k")
      case True
      have "distinct (map fst (insert_index k v ps))"
        using False assms(1)
      proof (induction ps)
        case Nil
        show ?case by simp
      next
        case (Cons p ps)
        then show ?case
          by (auto simp add: own_property_order_def set_insert_index)
      qed
      with True False assms(1) show ?thesis
        by (simp add: CreateDataProperty_def own_property_order_def sorted_insert_index
            set_insert_index)
    next
      case nidx: False
      have "\<forall>q \<in> set ps. own_property_rank (fst q) \<le> own_property_rank k"
      proof
        fix q assume q: "q \<in> set ps"
        with assms(2) nidx have "fst q \<le> k"
          by auto
        with nidx show "own_property_rank (fst q) \<le> own_property_rank k"
          by (simp add: own_property_rank_def)
      qed
      with nidx False assms(1) show ?thesis
        by (auto simp add: CreateDataProperty_def own_property_order_def sorted_append)
    qed
  qed
  then show "own_property_order (CreateDataProperty ps k v)"
    and "fst ` set (CreateDataProperty ps k v) = insert k (fst ` set ps)"
    by simp_all
qed

lemma map_of_keys_eq:
  assumes "map fst a = map fst b" "distinct (map fst a)" "map_of a = map_of b"
  shows "a = b"
  using assms
proof (induction a arbitrary: b)
  case Nil
  then show ?case by simp
next
  case (Cons p a)
  then obtain q b' where b: "b = q # b'"
    by (cases b) auto
  with Cons.prems have k: "fst p = fst q" and ks: "map fst a = map fst b'"
    by auto
  from Cons.prems(3) have m: "map_of (p # a) = map_of (q # b')"
    unfolding b .
  then have "map_of (p # a) (fst p) = map_of (q # b') (fst p)"
    by (rule fun_cong)
  with k have v: "snd p = snd q"
    by simp
  have "map_of a = map_of b'"
  proof
    fix x
    show "map_of a x = map_of b' x"
    proof (cases "x = fst p")
      case True
      with Cons.prems ks have "x \<notin> fst ` set a" and "x \<notin> fst ` set b'"
        by (auto simp flip: set_map)
      then have "map_of a x = None" and "map_of b' x = None"
        by (simp_all add: map_of_eq_None_iff)
      then show ?thesis
        by simp
    next
      case False
      from m have "map_of (p # a) x = map_of (q # b') x"
        by (rule fun_cong)
      with False k show ?thesis
        by simp
    qed
  qed
  moreover from Cons.prems(2) have "distinct (map fst a)"
    by simp
  ultimately have "a = b'"
    using ks by (intro Cons.IH)
  with k v b show ?case
    by (simp add: prod_eq_iff)
qed

lemma own_property_order_unique:
  assumes "own_property_order a" "own_property_order b" "map_of a = map_of b"
  shows "a = b"
proof -
  have s: "set (map fst a) = set (map fst b)"
    using assms(3) by (metis dom_map_of_conv_image_fst set_map)
  have inj: "inj own_property_rank"
    by (rule injI) (rule own_property_rank_inject)
  have "map own_property_rank (map fst a) = map own_property_rank (map fst b)"
  proof (rule sorted_distinct_set_unique)
    show "sorted (map own_property_rank (map fst a))"
      using assms(1) by (simp add: own_property_order_def comp_def)
    show "sorted (map own_property_rank (map fst b))"
      using assms(2) by (simp add: own_property_order_def comp_def)
    show "distinct (map own_property_rank (map fst a))"
      using assms(1) inj_on_subset [OF inj subset_UNIV, of "set (map fst a)"]
      unfolding own_property_order_def by (simp only: distinct_map simp_thms)
    show "distinct (map own_property_rank (map fst b))"
      using assms(2) inj_on_subset [OF inj subset_UNIV, of "set (map fst b)"]
      unfolding own_property_order_def by (simp only: distinct_map simp_thms)
    show "set (map own_property_rank (map fst a)) = set (map own_property_rank (map fst b))"
      using s by (metis set_map)
  qed
  with inj have "map fst a = map fst b"
    by (metis inj_map_eq_map)
  with assms show ?thesis
    by (auto intro: map_of_keys_eq simp add: own_property_order_def)
qed

section \<open>The object loop\<close>

lemma canonicalize_Object:
  "canonicalize rt (Object props) compareFn =
     Object (foldl
       (\<lambda>newObj key.
          if survives rt props key
          then CreateDataProperty newObj key (canonicalize rt (the (map_of props key)) compareFn)
          else newObj)
       [] (Array_sort (Object_keys props) compareFn))"
proof -
  have "(\<lambda>newObj key.
          case map_of props key of
            None \<Rightarrow> newObj
          | Some propertyValue \<Rightarrow>
              if propertyValue \<noteq> Undefined
              then assign rt newObj key (canonicalize rt propertyValue compareFn)
              else newObj)
      = (\<lambda>newObj key.
          if survives rt props key
          then CreateDataProperty newObj key (canonicalize rt (the (map_of props key)) compareFn)
          else newObj)"
    by (intro ext) (auto simp add: survives_def assign_def split: option.splits)
  then show ?thesis
    by simp
qed

lemma map_of_build:
  "map_of (foldl (\<lambda>newObj key. if keep key then CreateDataProperty newObj key (g key) else newObj)
             acc ks)
     = (\<lambda>k. if k \<in> set ks \<and> keep k then Some (g k) else map_of acc k)"
proof (induction ks arbitrary: acc)
  case Nil
  show ?case by simp
next
  case (Cons k ks)
  show ?case
    by (auto simp add: Cons.IH map_of_CreateDataProperty fun_eq_iff)
qed

lemma own_property_order_build:
  assumes "sorted ks" "own_property_order acc" "\<forall>k' \<in> fst ` set acc. \<forall>k \<in> set ks. k' \<le> k"
  shows "own_property_order
     (foldl (\<lambda>newObj key. if keep key then CreateDataProperty newObj key (g key) else newObj)
        acc ks)"
  using assms
proof (induction ks arbitrary: acc)
  case Nil
  then show ?case by simp
next
  case (Cons k ks)
  show ?case
  proof (cases "keep k")
    case False
    with Cons show ?thesis by simp
  next
    case True
    have o: "own_property_order (CreateDataProperty acc k (g k))"
      and s: "fst ` set (CreateDataProperty acc k (g k)) = insert k (fst ` set acc)"
      using Cons.prems by (auto intro!: own_property_order_CreateDataProperty)
    have "own_property_order
       (foldl (\<lambda>newObj key. if keep key then CreateDataProperty newObj key (g key) else newObj)
          (CreateDataProperty acc k (g k)) ks)"
    proof (rule Cons.IH)
      show "sorted ks" using Cons.prems by simp
      show "own_property_order (CreateDataProperty acc k (g k))" by (rule o)
      show "\<forall>k' \<in> fst ` set (CreateDataProperty acc k (g k)). \<forall>k \<in> set ks. k' \<le> k"
        using Cons.prems s by auto
    qed
    with True show ?thesis by simp
  qed
qed

section \<open>Canonical values\<close>

lemma own_property_order_canonicalize:
  "own_property_order
     (foldl (\<lambda>newObj key. if keep key then CreateDataProperty newObj key (g key) else newObj)
        [] (Array_sort ks None))"
  by (rule own_property_order_build) (simp_all add: sorted_Array_sort own_property_order_def)

lemma canonical_canonicalize: "canonical rt (canonicalize rt v None)"
proof (induction rt v "None :: (jsstring \<Rightarrow> jsstring \<Rightarrow> int) option" rule: canonicalize.induct)
  case (1 rt)
  show ?case by simp
next
  case (2 rt p)
  show ?case by simp
next
  case (3 rt elements)
  then show ?case
    by (simp add: foldl_push list_all_iff)
next
  case (4 rt props)
  let ?g = "\<lambda>key. canonicalize rt (the (map_of props key)) None"
  let ?obj = "foldl (\<lambda>newObj key. if survives rt props key
                 then CreateDataProperty newObj key (?g key) else newObj)
               [] (Array_sort (Object_keys props) None)"
  have ord: "own_property_order ?obj"
    by (rule own_property_order_canonicalize)
  have m: "map_of ?obj = (\<lambda>k. if k \<in> set (Array_sort (Object_keys props) None) \<and> survives rt props k
                              then Some (?g k) else None)"
    by (simp add: map_of_build fun_eq_iff)
  have entries: "\<And>k v. (k, v) \<in> set ?obj \<Longrightarrow>
      k \<in> set (Array_sort (Object_keys props) None) \<and> survives rt props k \<and> v = ?g k"
  proof -
    fix k v assume "(k, v) \<in> set ?obj"
    with ord have "map_of ?obj k = Some v"
      by (simp add: own_property_order_def)
    then show "k \<in> set (Array_sort (Object_keys props) None) \<and> survives rt props k \<and> v = ?g k"
      unfolding m by (auto split: if_splits)
  qed
  have proto: "\<not> (proto_accessor rt \<and> str ''__proto__'' \<in> fst ` set ?obj)"
  proof
    assume a: "proto_accessor rt \<and> str ''__proto__'' \<in> fst ` set ?obj"
    then obtain v where "(str ''__proto__'', v) \<in> set ?obj"
      by fastforce
    then have "survives rt props (str ''__proto__'')"
      by (rule entries [THEN conjunct2, THEN conjunct1])
    with a show False
      by (simp add: survives_def)
  qed
  have "list_all (\<lambda>entry. canonical rt (snd entry)) ?obj"
    unfolding list_all_iff
  proof
    fix entry assume "entry \<in> set ?obj"
    then have e: "(fst entry, snd entry) \<in> set ?obj"
      by simp
    from entries [OF e] obtain pv where k: "fst entry \<in> set (Array_sort (Object_keys props) None)"
      and pv: "map_of props (fst entry) = Some pv" "pv \<noteq> Undefined"
      and v: "snd entry = canonicalize rt pv None"
      by (auto simp add: survives_def split: option.splits)
    from "4.hyps" [OF k pv] v show "canonical rt (snd entry)"
      by simp
  qed
  with ord proto show ?case
    unfolding canonicalize_Object by (simp add: own_property_order_def)
qed

lemma canonicalize_canonical: "canonical rt u \<Longrightarrow> canonicalize rt u None = u"
proof (induction u)
  case Undefined
  then show ?case by simp
next
  case (Primitive p)
  show ?case by simp
next
  case (Array elements)
  then have "map (\<lambda>element. canonicalize rt element None) elements = elements"
    by (intro map_idI) (simp add: list_all_iff)
  then show ?case
    by (simp add: foldl_push)
next
  case (Object props)
  let ?g = "\<lambda>key. canonicalize rt (the (map_of props key)) None"
  let ?obj = "foldl (\<lambda>newObj key. if survives rt props key
                 then CreateDataProperty newObj key (?g key) else newObj)
               [] (Array_sort (Object_keys props) None)"
  from Object.prems have d: "distinct (map fst props)"
    by simp
  have "map_of ?obj = map_of props"
  proof
    fix k
    show "map_of ?obj k = map_of props k"
    proof (cases "map_of props k")
      case None
      then have "k \<notin> set (Array_sort (Object_keys props) None)"
        by (simp add: set_Array_sort Object_keys_def map_of_eq_None_iff)
      with None show ?thesis
        by (simp add: map_of_build)
    next
      case (Some v)
      with d have e: "(k, v) \<in> set props"
        by simp
      then have k: "k \<in> set (Array_sort (Object_keys props) None)"
        by (force simp add: set_Array_sort Object_keys_def)
      from e Object.prems have c: "canonical rt v"
        by (auto simp add: list_all_iff)
      then have "v \<noteq> Undefined"
        by auto
      moreover from e Object.prems have "\<not> (proto_accessor rt \<and> k = str ''__proto__'')"
        by force
      ultimately have s: "survives rt props k"
        using Some by (simp add: survives_def)
      from e c have "canonicalize rt v None = v"
        by (intro Object.IH [of "(k, v)"]) simp_all
      with k s Some show ?thesis
        by (simp add: map_of_build)
    qed
  qed
  moreover have "own_property_order ?obj"
    by (rule own_property_order_canonicalize)
  moreover from Object.prems have "own_property_order props"
    by (simp add: own_property_order_def)
  ultimately have "?obj = props"
    by (intro own_property_order_unique)
  then show ?case
    unfolding canonicalize_Object by simp
qed

text \<open>
  C4. Canonicalizing a canonical form returns it: \<open>canonicalize\<close> applied twice, with
  the default order of keys, gives what it gives applied once.
\<close>

theorem canonicalize_idempotent:
  "canonicalize rt (canonicalize rt v None) None = canonicalize rt v None"
  by (rule canonicalize_canonical) (rule canonical_canonicalize)

section \<open>Key order\<close>

text \<open>
  C5. Two objects with the same properties (distinct keys, the same key and value pairs)
  listed in different orders have the same canonical string.
\<close>

theorem stringify_key_order:
  assumes "distinct (map fst m1)" and "mset m1 = mset m2"
  shows "createCanonicalJsonString rt (Object m1) None None
       = createCanonicalJsonString rt (Object m2) None None"
proof -
  from assms(2) have k: "mset (map fst m1) = mset (map fst m2)"
    by (metis mset_map)
  with assms(1) have "distinct (map fst m2)"
    by (metis mset_eq_imp_distinct_iff)
  moreover from assms(2) have "set m1 = set m2"
    by (metis set_mset_mset)
  ultimately have "map_of m1 = map_of m2"
    using assms(1) by (simp add: map_of_inject_set)
  moreover from k have "Array_sort (Object_keys m1) None = Array_sort (Object_keys m2) None"
    by (simp add: Array_sort_default Object_keys_def properties_for_sort)
  ultimately have "canonicalize rt (Object m1) None = canonicalize rt (Object m2) None"
    by simp
  then show ?thesis
    by (simp add: createCanonicalJsonString_def)
qed

theorem stringify_key_order_witness:
  "distinct (map fst [(str ''c'', Primitive (JNumber (Finite 3))), (str ''a'', Primitive (JNumber (Finite 1))),
                      (str ''b'', Primitive (JString (str ''test'')))])
   \<and> mset [(str ''c'', Primitive (JNumber (Finite 3))), (str ''a'', Primitive (JNumber (Finite 1))),
           (str ''b'', Primitive (JString (str ''test'')))]
     = mset [(str ''b'', Primitive (JString (str ''test''))), (str ''c'', Primitive (JNumber (Finite 3))),
             (str ''a'', Primitive (JNumber (Finite 1)))]
   \<and> createCanonicalJsonString example_runtime
        (Object [(str ''c'', Primitive (JNumber (Finite 3))), (str ''a'', Primitive (JNumber (Finite 1))),
                 (str ''b'', Primitive (JString (str ''test'')))]) None None
     = createCanonicalJsonString example_runtime
        (Object [(str ''b'', Primitive (JString (str ''test''))), (str ''c'', Primitive (JNumber (Finite 3))),
                 (str ''a'', Primitive (JNumber (Finite 1)))]) None None"
  using stringify_key_order [of
      "[(str ''c'', Primitive (JNumber (Finite 3))), (str ''a'', Primitive (JNumber (Finite 1))),
        (str ''b'', Primitive (JString (str ''test'')))]"
      "[(str ''b'', Primitive (JString (str ''test''))), (str ''c'', Primitive (JNumber (Finite 3))),
        (str ''a'', Primitive (JNumber (Finite 1)))]" example_runtime]
  by (simp add: str_def)

text \<open>The string of scenario 2: \<^verbatim>\<open>{"a":1,"b":"test","c":3}\<close>.\<close>

lemma stringify_example:
  "createCanonicalJsonString example_runtime
     (Object [(str ''c'', Primitive (JNumber (Finite 3))), (str ''a'', Primitive (JNumber (Finite 1))),
              (str ''b'', Primitive (JString (str ''test'')))]) None None
   = Some [0x7B, 0x22, 0x61, 0x22, 0x3A, 0x31, 0x2C, 0x22, 0x62, 0x22, 0x3A, 0x22, 0x74, 0x65, 0x73, 0x74, 0x22, 0x2C, 0x22, 0x63, 0x22, 0x3A, 0x33, 0x7D]"
  by code_simp

section \<open>The order of the keys of the result\<close>

text \<open>
  C2 at the object with the keys \<^verbatim>\<open>"9"\<close> and \<^verbatim>\<open>"10"\<close>: sorted as strings the keys
  are \<^verbatim>\<open>"10"\<close>, \<^verbatim>\<open>"9"\<close>, and the properties are created in that order, but both
  keys are array indices, so the result lists \<^verbatim>\<open>"9"\<close> before \<^verbatim>\<open>"10"\<close>.
\<close>

theorem canonicalize_index_keys:
  "canonicalize rt (Object [(str ''9'', Primitive (JNumber (Finite 2))),
                            (str ''10'', Primitive (JNumber (Finite 1)))]) None
     = Object [(str ''9'', Primitive (JNumber (Finite 2))),
               (str ''10'', Primitive (JNumber (Finite 1)))]
   \<and> Array_sort [str ''9'', str ''10''] None = [str ''10'', str ''9'']"
  by (simp add: str_def Array_sort_def Object_keys_def SortCompare_def assign_def
      CreateDataProperty_def is_array_index_def is_digit_def numeric_value_def digit_value_def)

end
